theory Spec2Isabelle
  imports Main
begin

section \<open>url\_unshortener.py: data and environment\<close>

text \<open>
  The script reads a CSV document, resolves the URL found in one column of every data
  row with an HTTP HEAD request, and writes the document back with one more column.
  The model starts from the rows that \<^verbatim>\<open>csv.reader\<close> yields and ends at the rows
  handed to \<^verbatim>\<open>csv.writer.writerow\<close>; a cell is a \<open>string\<close>, a row a list of cells.

  The exceptions of the Python code are values. \<open>RequestException\<close> carries \<open>str(e)\<close>;
  \<open>OtherException\<close> stands for an exception of any class outside the
  \<^verbatim>\<open>requests.RequestException\<close> hierarchy (a \<^verbatim>\<open>ValueError\<close> of \<^verbatim>\<open>urlparse\<close>, say) and
  carries its class name.
\<close>

datatype exn =
    RequestException string
  | StopIteration
  | IndexError
  | UnboundLocalError string
  | OtherException string

text \<open>
  The two library calls of \<^verbatim>\<open>unshorten_url\<close> are parameters of the model.
  \<open>requests_head E k url\<close> is what \<^verbatim>\<open>requests.head(url, allow_redirects=True, timeout=10)\<close>
  does when it is the request number \<open>k\<close> of the run (counted from 0): it raises, or it
  returns a response whose \<^verbatim>\<open>.url\<close> is the given string.
  \<open>urlparse_netloc E u\<close> is \<^verbatim>\<open>urlparse(u).netloc\<close>, or the exception \<^verbatim>\<open>urlparse\<close> raises.
\<close>

record env =
  requests_head :: "nat \<Rightarrow> string \<Rightarrow> exn + string"
  urlparse_netloc :: "string \<Rightarrow> exn + string"

text \<open>
  What \<^verbatim>\<open>process_csv\<close> changes while it runs: the rows written so far, the URLs
  requested so far, the lines printed so far, and its two local variables that are
  assigned in one branch of the loop only (\<open>None\<close>: not bound yet).
\<close>

record state =
  written :: "string list list"
  requested :: "string list"
  printed :: "string list"
  shortened_url :: "string option"
  unshortened_url :: "string option"

definition initial :: state where
  "initial = \<lparr>written = [], requested = [], printed = [],
     shortened_url = None, unshortened_url = None\<rparr>"

text \<open>Python's \<^verbatim>\<open>xs[i]\<close>: a negative index counts from the end, out of range raises.\<close>

definition getitem :: "'a list \<Rightarrow> int \<Rightarrow> exn + 'a" where
  "getitem xs i =
     (if 0 \<le> i \<and> i < int (length xs) then Inr (xs ! nat i)
      else if i < 0 \<and> 0 \<le> int (length xs) + i then Inr (xs ! nat (int (length xs) + i))
      else Inl IndexError)"

section \<open>unshorten\_url\<close>

definition shortener_domains :: "string list" where
  "shortener_domains =
     [''bit.ly'', ''tinyurl.com'', ''goo.gl'', ''t.co'', ''shorturl.at'', ''lnkd.in'']"

text \<open>The body of the \<^verbatim>\<open>try\<close> block: the request, the parse, the membership test.\<close>

definition try_block :: "env \<Rightarrow> nat \<Rightarrow> string \<Rightarrow> exn + string" where
  "try_block E k url =
     (case requests_head E k url of
        Inl e \<Rightarrow> Inl e
      | Inr final_url \<Rightarrow>
          (case urlparse_netloc E final_url of
             Inl e \<Rightarrow> Inl e
           | Inr netloc \<Rightarrow>
               if netloc \<in> set shortener_domains
               then Inr ''Error: Still on shortener domain''
               else Inr final_url))"

text \<open>
  \<^verbatim>\<open>except requests.RequestException as e: return f"Error: {str(e)}"\<close> handles that
  class alone; an exception of another class leaves the function.
\<close>

definition unshorten_url :: "env \<Rightarrow> nat \<Rightarrow> string \<Rightarrow> exn + string" where
  "unshorten_url E k url =
     (case try_block E k url of
        Inr s \<Rightarrow> Inr s
      | Inl (RequestException d) \<Rightarrow> Inr (''Error: '' @ d)
      | Inl e \<Rightarrow> Inl e)"

section \<open>process\_csv\<close>

text \<open>
  The last two statements of the loop body, \<^verbatim>\<open>writer.writerow(row)\<close> and the
  \<^verbatim>\<open>print\<close> of \<^verbatim>\<open>row[0]\<close>, \<^verbatim>\<open>shortened_url\<close> and \<^verbatim>\<open>unshortened_url\<close>. Reading a
  local variable that was never assigned raises \<^verbatim>\<open>UnboundLocalError\<close>.
\<close>

definition write_and_print :: "string list \<Rightarrow> state \<Rightarrow> exn option \<times> state" where
  "write_and_print row s =
     (let s1 = s\<lparr>written := written s @ [row]\<rparr> in
      case getitem row 0 of
        Inl e \<Rightarrow> (Some e, s1)
      | Inr first \<Rightarrow>
          (case shortened_url s1 of
             None \<Rightarrow> (Some (UnboundLocalError ''shortened_url''), s1)
           | Some su \<Rightarrow>
               (case unshortened_url s1 of
                  None \<Rightarrow> (Some (UnboundLocalError ''unshortened_url''), s1)
                | Some uu \<Rightarrow>
                    (None, s1\<lparr>printed := printed s1 @
                       [''Processed: '' @ first @ '' - '' @ su @ '' -> '' @ uu]\<rparr>))))"

text \<open>One pass of the \<^verbatim>\<open>for row in reader\<close> loop.\<close>

definition process_row :: "env \<Rightarrow> int \<Rightarrow> string list \<Rightarrow> state \<Rightarrow> exn option \<times> state" where
  "process_row E column_index row s =
     (if int (length row) > column_index then
        (case getitem row column_index of
           Inl e \<Rightarrow> (Some e, s)
         | Inr url \<Rightarrow>
             (let s1 = s\<lparr>shortened_url := Some url\<rparr>;
                  s2 = s1\<lparr>requested := requested s1 @ [url]\<rparr>
              in case unshorten_url E (length (requested s1)) url of
                   Inl e \<Rightarrow> (Some e, s2)
                 | Inr u \<Rightarrow> write_and_print (row @ [u]) (s2\<lparr>unshortened_url := Some u\<rparr>)))
      else write_and_print (row @ [''Error: Column index out of range'']) s)"

text \<open>The loop: an exception in one pass ends it.\<close>

fun for_rows :: "env \<Rightarrow> int \<Rightarrow> string list list \<Rightarrow> state \<Rightarrow> exn option \<times> state" where
  "for_rows E column_index [] s = (None, s)"
| "for_rows E column_index (row # rest) s =
     (case process_row E column_index row s of
        (Some e, s') \<Rightarrow> (Some e, s')
      | (None, s') \<Rightarrow> for_rows E column_index rest s')"

text \<open>
  The body of \<^verbatim>\<open>process_csv\<close> with its effects: \<^verbatim>\<open>next(reader)\<close> raises
  \<^verbatim>\<open>StopIteration\<close> when there is no row at all; otherwise the header gets its new
  column name, is written, and the loop runs over the remaining rows.
\<close>

definition run_csv :: "env \<Rightarrow> int \<Rightarrow> string list list \<Rightarrow> exn option \<times> state" where
  "run_csv E column_index doc =
     (case doc of
        [] \<Rightarrow> (Some StopIteration, initial)
      | header # rows \<Rightarrow>
          for_rows E column_index rows
            (initial\<lparr>written := written initial @ [header @ [''Unshortened URL'']]\<rparr>))"

text \<open>
  What the caller of \<^verbatim>\<open>process_csv\<close> gets: the exception, or the document that
  \<^verbatim>\<open>output.getvalue()\<close> holds, as the list of the rows written.
\<close>

definition process_csv :: "env \<Rightarrow> int \<Rightarrow> string list list \<Rightarrow> exn + string list list" where
  "process_csv E column_index doc =
     (case run_csv E column_index doc of
        (Some e, s) \<Rightarrow> Inl e
      | (None, s) \<Rightarrow> Inr (written s))"

section \<open>Concrete environments\<close>

text \<open>
  A resolver stub in the manner of section 8 of the specification: every request ends
  at the URL it was given, except two short links with a fixed destination and one host
  that cannot be reached; the network location is read off a small table.
\<close>

definition stub_head :: "nat \<Rightarrow> string \<Rightarrow> exn + string" where
  "stub_head k url =
     (if url = ''http://bit.ly/abc'' then Inr ''https://example.com/final''
      else if url = ''http://bit.ly/loop'' then Inr ''https://bit.ly/loop''
      else if url = ''http://badhost.invalid'' then Inl (RequestException ''Name or service not known'')
      else Inr url)"

definition stub_netloc :: "string \<Rightarrow> exn + string" where
  "stub_netloc u =
     (if u = ''https://example.com/final'' then Inr ''example.com''
      else if u = ''https://bit.ly/loop'' then Inr ''bit.ly''
      else if u = ''https://www.bit.ly/loop'' then Inr ''www.bit.ly''
      else if u = ''https://bit.ly:80/loop'' then Inr ''bit.ly:80''
      else if u = ''https://BIT.LY/loop'' then Inr ''BIT.LY''
      else Inr '''')"

definition stub :: env where
  "stub = \<lparr>requests_head = stub_head, urlparse_netloc = stub_netloc\<rparr>"

text \<open>An HTTP layer that raises an exception outside the \<^verbatim>\<open>RequestException\<close> hierarchy.\<close>

definition leaking_head :: "nat \<Rightarrow> string \<Rightarrow> exn + string" where
  "leaking_head k url = Inl (OtherException ''ValueError'')"

definition leaking :: env where
  "leaking = \<lparr>requests_head = leaking_head, urlparse_netloc = stub_netloc\<rparr>"

text \<open>A parser that raises, as \<^verbatim>\<open>urlparse\<close> does with \<^verbatim>\<open>ValueError\<close> on a URL it refuses.\<close>

definition failing_netloc :: "string \<Rightarrow> exn + string" where
  "failing_netloc u = Inl (OtherException ''ValueError'')"

definition unparsable :: env where
  "unparsable = \<lparr>requests_head = stub_head, urlparse_netloc = failing_netloc\<rparr>"

text \<open>
  The host inside a network location \<^verbatim>\<open>[userinfo@]host[:port]\<close>, the notion the
  specification words the denylist test with: what follows the last \<^verbatim>\<open>@\<close>, up to the
  port or, for a bracketed address, between the brackets. The code never computes it; it
  is here to compare the specification's wording with the test the code makes.
\<close>

definition host_of_netloc :: "string \<Rightarrow> string" where
  "host_of_netloc netloc =
     (let hostinfo = rev (takeWhile (\<lambda>c. c \<noteq> CHR ''@'') (rev netloc))
      in if CHR ''['' \<in> set hostinfo
         then takeWhile (\<lambda>c. c \<noteq> CHR '']'') (tl (dropWhile (\<lambda>c. c \<noteq> CHR ''['') hostinfo))
         else takeWhile (\<lambda>c. c \<noteq> CHR '':'') hostinfo)"

text \<open>
  A document for the concrete checks: a header, a row whose short link resolves, a row
  with too few cells for column 1, a row whose redirect ends on a shortener, and a row
  whose host cannot be reached; and the document expected for it with column index 1.
\<close>

definition sample_doc :: "string list list" where
  "sample_doc =
     [[''name'', ''url''],
      [''a'', ''http://bit.ly/abc''],
      [''b''],
      [''c'', ''http://bit.ly/loop''],
      [''d'', ''http://badhost.invalid'']]"

definition sample_out :: "string list list" where
  "sample_out =
     [[''name'', ''url'', ''Unshortened URL''],
      [''a'', ''http://bit.ly/abc'', ''https://example.com/final''],
      [''b'', ''Error: Column index out of range''],
      [''c'', ''http://bit.ly/loop'', ''Error: Still on shortener domain''],
      [''d'', ''http://badhost.invalid'', ''Error: Name or service not known'']]"

section \<open>Facts about the resolver and the loop\<close>

text \<open>
  After a response, the result depends on the network location alone.
\<close>

lemma unshorten_url_response:
  assumes "requests_head E k url = Inr final_url"
    and "urlparse_netloc E final_url = Inr netloc"
  shows "unshorten_url E k url =
           (if netloc \<in> set shortener_domains
            then Inr ''Error: Still on shortener domain'' else Inr final_url)"
  using assms by (simp add: unshorten_url_def try_block_def)

text \<open>
  Writing a row adds it at the end of the output and requests nothing, whether or not
  the \<^verbatim>\<open>print\<close> after it succeeds.
\<close>

lemma write_and_print_written:
  "write_and_print row s = (r, s') \<Longrightarrow>
     written s' = written s @ [row] \<and> requested s' = requested s"
  by (auto simp add: write_and_print_def Let_def split: sum.splits option.splits)

lemma process_row_short:
  "int (length row) \<le> column_index \<Longrightarrow>
     process_row E column_index row s =
       write_and_print (row @ [''Error: Column index out of range'']) s"
  by (simp add: process_row_def)

text \<open>
  One pass either ends in an exception before the row is written, or writes the row
  with one cell added; for a row without the column that cell is the range error.
\<close>

lemma process_row_written:
  assumes "process_row E column_index row s = (r, s')"
  shows "(r \<noteq> None \<and> written s' = written s) \<or>
         (\<exists>cell. written s' = written s @ [row @ [cell]] \<and>
            (int (length row) \<le> column_index \<longrightarrow>
               cell = ''Error: Column index out of range''))"
proof (cases "int (length row) > column_index")
  case False
  with assms have "write_and_print (row @ [''Error: Column index out of range'']) s = (r, s')"
    by (simp add: process_row_short)
  from write_and_print_written [OF this] show ?thesis by simp
next
  case True
  show ?thesis
  proof (cases "getitem row column_index")
    case (Inl e)
    with True assms show ?thesis by (auto simp add: process_row_def)
  next
    case (Inr url)
    show ?thesis
    proof (cases "unshorten_url E (length (requested s)) url")
      case (Inl e)
      with True Inr assms show ?thesis by (auto simp add: process_row_def Let_def)
    next
      case u: (Inr u)
      with True Inr assms have
        "write_and_print (row @ [u])
           (s\<lparr>shortened_url := Some url, requested := requested s @ [url],
              unshortened_url := Some u\<rparr>) = (r, s')"
        by (simp add: process_row_def Let_def)
      from write_and_print_written [OF this] True show ?thesis by simp
    qed
  qed
qed

text \<open>
  The loop invariant: the rows written are the rows read so far, in order, each with
  one cell added, and all of them when the loop ends without an exception.
\<close>

lemma for_rows_written:
  "for_rows E column_index rows s = (r, s') \<Longrightarrow>
     \<exists>cells. length cells \<le> length rows \<and>
       (r = None \<longrightarrow> length cells = length rows) \<and>
       written s' = written s @ map2 (\<lambda>row cell. row @ [cell]) rows cells \<and>
       (\<forall>i < length cells. int (length (rows ! i)) \<le> column_index \<longrightarrow>
           cells ! i = ''Error: Column index out of range'')"
proof (induction rows arbitrary: s)
  case Nil
  then show ?case by simp
next
  case (Cons row rest)
  obtain r1 s1 where step: "process_row E column_index row s = (r1, s1)"
    by (cases "process_row E column_index row s") 
  from process_row_written [OF step] consider
      (stop) "r1 \<noteq> None" "written s1 = written s"
    | (wrote) cell where "written s1 = written s @ [row @ [cell]]"
        "int (length row) \<le> column_index \<longrightarrow> cell = ''Error: Column index out of range''"
    by blast
  then show ?case
  proof cases
    case stop
    with step Cons.prems have "r = r1" "s' = s1" by auto
    with stop show ?thesis by (intro exI [of _ "[]"]) simp
  next
    case wrote
    show ?thesis
    proof (cases r1)
      case (Some e)
      with step Cons.prems have "r = Some e" "s' = s1" by auto
      with wrote show ?thesis by (intro exI [of _ "[cell]"]) simp
    next
      case None
      with step Cons.prems have "for_rows E column_index rest s1 = (r, s')" by simp
      from Cons.IH [OF this] obtain cells where c:
        "length cells \<le> length rest" "r = None \<longrightarrow> length cells = length rest"
        "written s' = written s1 @ map2 (\<lambda>row cell. row @ [cell]) rest cells"
        "\<forall>i < length cells. int (length (rest ! i)) \<le> column_index \<longrightarrow>
           cells ! i = ''Error: Column index out of range''"
        by blast
      have "\<forall>i < length (cell # cells). int (length ((row # rest) ! i)) \<le> column_index \<longrightarrow>
           (cell # cells) ! i = ''Error: Column index out of range''"
        using c(4) wrote(2) by (auto simp add: nth_Cons split: nat.splits)
      with c wrote(1) show ?thesis by (intro exI [of _ "cell # cells"]) simp
    qed
  qed
qed



lemma process_csv_shape:
  assumes "process_csv E column_index doc = Inr out"
  shows "\<exists>header rows cells. doc = header # rows \<and> length cells = length rows \<and>
           out = (header @ [''Unshortened URL'']) # map2 (\<lambda>row cell. row @ [cell]) rows cells \<and>
           (\<forall>i < length rows. int (length (rows ! i)) \<le> column_index \<longrightarrow>
               cells ! i = ''Error: Column index out of range'')"
proof (cases doc)
  case Nil
  with assms show ?thesis by (simp add: process_csv_def run_csv_def)
next
  case (Cons header rows)
  let ?s0 = "initial\<lparr>written := written initial @ [header @ [''Unshortened URL'']]\<rparr>"
  obtain r s where run: "for_rows E column_index rows ?s0 = (r, s)"
    by (cases "for_rows E column_index rows ?s0")
  with assms Cons have r: "r = None" and out: "out = written s"
    by (auto simp add: process_csv_def run_csv_def split: option.splits)
  from for_rows_written [OF run] r obtain cells where c:
    "length cells = length rows"
    "written s = written ?s0 @ map2 (\<lambda>row cell. row @ [cell]) rows cells"
    "\<forall>i < length cells. int (length (rows ! i)) \<le> column_index \<longrightarrow>
       cells ! i = ''Error: Column index out of range''"
    by auto
  from c(2) out have
    "out = (header @ [''Unshortened URL'']) # map2 (\<lambda>row cell. row @ [cell]) rows cells"
    by (simp add: initial_def)
  with Cons c(1) c(3) show ?thesis by auto
qed

lemma run_csv_header:
  assumes "run_csv E column_index (header # rows) = (r, s)"
  shows "written s \<noteq> [] \<and> hd (written s) = header @ [''Unshortened URL'']"
proof -
  let ?s0 = "initial\<lparr>written := written initial @ [header @ [''Unshortened URL'']]\<rparr>"
  from assms have "for_rows E column_index rows ?s0 = (r, s)"
    by (simp add: run_csv_def)
  from for_rows_written [OF this] show ?thesis
    by (auto simp add: initial_def)
qed

lemma www_not_listed: "d \<in> set shortener_domains \<Longrightarrow> ''www.'' @ d \<notin> set shortener_domains"
  by (auto simp add: shortener_domains_def)

lemma port_not_listed: "d \<in> set shortener_domains \<Longrightarrow> d @ '':'' @ port \<notin> set shortener_domains"
  by (auto simp add: shortener_domains_def)

text \<open>
  The run of the sample document under the stub, with every effect.
\<close>

lemma sample_run:
  "run_csv stub 1 sample_doc =
     (None, \<lparr>written = sample_out,
        requested = [''http://bit.ly/abc'', ''http://bit.ly/loop'', ''http://badhost.invalid''],
        printed = [''Processed: a - http://bit.ly/abc -> https://example.com/final'',
                   ''Processed: b - http://bit.ly/abc -> https://example.com/final'',
                   ''Processed: c - http://bit.ly/loop -> Error: Still on shortener domain'',
                   ''Processed: d - http://badhost.invalid -> Error: Name or service not known''],
        shortened_url = Some ''http://badhost.invalid'',
        unshortened_url = Some ''Error: Name or service not known''\<rparr>)"
  by (simp add: run_csv_def initial_def process_row_def write_and_print_def getitem_def
      unshorten_url_def try_block_def shortener_domains_def Let_def sample_doc_def sample_out_def stub_def stub_head_def stub_netloc_def)

lemma sample_process: "process_csv stub 1 sample_doc = Inr sample_out"
  by (simp add: process_csv_def sample_run)

section \<open>Properties\<close>

text \<open>
  C1. Whenever \<^verbatim>\<open>process_csv\<close> returns a document, that document has as many rows as
  the input (hence as many data rows), and every row, the header included, is one cell
  longer than the input row at the same position.
\<close>

theorem process_csv_column_invariant:
  assumes "process_csv E column_index doc = Inr out"
  shows "length out = length doc \<and> length (tl out) = length (tl doc) \<and>
         (\<forall>i < length doc. length (out ! i) = length (doc ! i) + 1)"
proof -
  from process_csv_shape [OF assms] obtain header rows cells where
    d: "doc = header # rows" and l: "length cells = length rows" and
    o: "out = (header @ [''Unshortened URL'']) # map2 (\<lambda>row cell. row @ [cell]) rows cells"
    by blast
  have "length (out ! i) = length (doc ! i) + 1" if "i < length doc" for i
  proof (cases i)
    case 0
    with d o show ?thesis by simp
  next
    case (Suc j)
    with that d l have "j < length rows" "j < length cells" by simp_all
    with Suc d o show ?thesis by simp
  qed
  with d l o show ?thesis by simp
qed

theorem process_csv_column_invariant_witness:
  "process_csv stub 1 sample_doc = Inr sample_out \<and>
   length sample_out = length sample_doc \<and>
   length (tl sample_out) = length (tl sample_doc) \<and>
   length (sample_out ! 0) = length (sample_doc ! 0) + 1 \<and>
   length (sample_out ! 1) = length (sample_doc ! 1) + 1 \<and>
   length (sample_out ! 2) = length (sample_doc ! 2) + 1 \<and>
   length (sample_out ! 3) = length (sample_doc ! 3) + 1 \<and>
   length (sample_out ! 4) = length (sample_doc ! 4) + 1"
proof -
  note inv = process_csv_column_invariant [OF sample_process]
  have n: "length sample_doc = 5" by (simp add: sample_doc_def)
  from inv n have row: "length (sample_out ! i) = length (sample_doc ! i) + 1" if "i < 5" for i
    using that by simp
  from inv sample_process row [of 0] row [of 1] row [of 2] row [of 3] row [of 4]
  show ?thesis by simp
qed

text \<open>
  C2. The claim that a row shorter than the column index never interrupts processing
  fails on the code: with a header, a first data row of one cell and column index 1, the
  row is written with its error cell, then the \<^verbatim>\<open>print\<close> at the end of the loop body
  reads \<^verbatim>\<open>shortened_url\<close>, which no earlier pass has assigned. The
  \<^verbatim>\<open>UnboundLocalError\<close> ends the run: the following row is never processed, no request
  is made, and no document is returned. This holds for every behaviour of the network.
\<close>

theorem process_csv_short_first_row_aborts:
  "run_csv E 1 [[''name'', ''url''], [''alice''], [''bob'', ''http://bit.ly/abc'']] =
     (Some (UnboundLocalError ''shortened_url''),
      \<lparr>written = [[''name'', ''url'', ''Unshortened URL''],
                   [''alice'', ''Error: Column index out of range'']],
       requested = [], printed = [], shortened_url = None, unshortened_url = None\<rparr>) \<and>
   process_csv E 1 [[''name'', ''url''], [''alice''], [''bob'', ''http://bit.ly/abc'']] =
     Inl (UnboundLocalError ''shortened_url'')"
  by (simp add: process_csv_def run_csv_def initial_def process_row_def write_and_print_def
      getitem_def)

text \<open>
  C3, as stated for the host of the final URL, does not hold: the code compares the
  whole network location. A final URL \<^verbatim>\<open>https://bit.ly:80/loop\<close> has the host
  \<^verbatim>\<open>bit.ly\<close>, one of the six, and the network location \<^verbatim>\<open>bit.ly:80\<close>, none of
  them; \<^verbatim>\<open>unshorten_url\<close> returns the URL.
\<close>

theorem unshorten_url_host_with_port_not_matched:
  "requests_head stub 1 ''https://bit.ly:80/loop'' = Inr ''https://bit.ly:80/loop'' \<and>
   urlparse_netloc stub ''https://bit.ly:80/loop'' = Inr ''bit.ly:80'' \<and>
   host_of_netloc ''bit.ly:80'' = ''bit.ly'' \<and>
   ''bit.ly'' \<in> {''bit.ly'', ''tinyurl.com'', ''goo.gl'', ''t.co'', ''shorturl.at'', ''lnkd.in''} \<and>
   unshorten_url stub 1 ''https://bit.ly:80/loop'' = Inr ''https://bit.ly:80/loop'' \<and>
   unshorten_url stub 1 ''https://bit.ly:80/loop'' \<noteq> Inr ''Error: Still on shortener domain''"
  by (simp add: unshorten_url_def try_block_def shortener_domains_def stub_def stub_head_def
      stub_netloc_def host_of_netloc_def)

text \<open>
  C3, amended. When the request succeeds and the network location of the final URL, the
  whole string with any user information and port, is exactly one of
  \<^verbatim>\<open>bit.ly\<close>, \<^verbatim>\<open>tinyurl.com\<close>, \<^verbatim>\<open>goo.gl\<close>, \<^verbatim>\<open>t.co\<close>, \<^verbatim>\<open>shorturl.at\<close>, \<^verbatim>\<open>lnkd.in\<close>,
  \<^verbatim>\<open>unshorten_url\<close> returns exactly \<^verbatim>\<open>Error: Still on shortener domain\<close>.
\<close>

theorem unshorten_url_still_on_shortener:
  assumes "requests_head E k url = Inr final_url"
    and "urlparse_netloc E final_url = Inr netloc"
    and "netloc \<in> {''bit.ly'', ''tinyurl.com'', ''goo.gl'', ''t.co'', ''shorturl.at'', ''lnkd.in''}"
  shows "unshorten_url E k url = Inr ''Error: Still on shortener domain''"
  using assms by (auto simp add: unshorten_url_response shortener_domains_def)

theorem unshorten_url_still_on_shortener_witness:
  "requests_head stub 0 ''http://bit.ly/loop'' = Inr ''https://bit.ly/loop'' \<and>
   urlparse_netloc stub ''https://bit.ly/loop'' = Inr ''bit.ly'' \<and>
   ''bit.ly'' \<in> {''bit.ly'', ''tinyurl.com'', ''goo.gl'', ''t.co'', ''shorturl.at'', ''lnkd.in''} \<and>
   unshorten_url stub 0 ''http://bit.ly/loop'' = Inr ''Error: Still on shortener domain''"
proof -
  have h: "requests_head stub 0 ''http://bit.ly/loop'' = Inr ''https://bit.ly/loop''"
    by (simp add: stub_def stub_head_def)
  have p: "urlparse_netloc stub ''https://bit.ly/loop'' = Inr ''bit.ly''"
    by (simp add: stub_def stub_netloc_def)
  have m: "''bit.ly'' \<in> {''bit.ly'', ''tinyurl.com'', ''goo.gl'', ''t.co'', ''shorturl.at'', ''lnkd.in''}"
    by simp
  from unshorten_url_still_on_shortener [OF h p m] h p m show ?thesis by simp
qed

text \<open>
  C4, as stated, does not hold: the handler names \<^verbatim>\<open>requests.RequestException\<close>, so an
  exception of another class raised under the \<^verbatim>\<open>try\<close> leaves \<^verbatim>\<open>unshorten_url\<close>.
\<close>

theorem unshorten_url_exception_escapes:
  "unshorten_url leaking 0 ''http://example.com'' = Inl (OtherException ''ValueError'')"
  by (simp add: unshorten_url_def try_block_def leaking_def leaking_head_def)

text \<open>
  C4, amended. The handler catches \<^verbatim>\<open>requests.RequestException\<close> and nothing else.
  When the HEAD request raises a \<^verbatim>\<open>RequestException\<close>, \<^verbatim>\<open>unshorten_url\<close> returns
  the string \<^verbatim>\<open>Error: \<close> followed by its description, and no \<^verbatim>\<open>RequestException\<close>
  ever leaves the function. An exception of any other class, raised by the HEAD request
  or by \<^verbatim>\<open>urlparse\<close> on the final URL, is not caught: it reaches the caller unchanged.
\<close>

theorem unshorten_url_request_exception:
  "(requests_head E k url = Inl (RequestException d) \<longrightarrow>
      unshorten_url E k url = Inr (''Error: '' @ d)) \<and>
   unshorten_url E k url \<noteq> Inl (RequestException d') \<and>
   (requests_head E k url = Inl e \<and> (\<forall>d. e \<noteq> RequestException d) \<longrightarrow>
      unshorten_url E k url = Inl e) \<and>
   (requests_head E k url = Inr final_url \<and> urlparse_netloc E final_url = Inl e \<and>
    (\<forall>d. e \<noteq> RequestException d) \<longrightarrow>
      unshorten_url E k url = Inl e)"
proof (intro conjI impI)
  assume "requests_head E k url = Inl (RequestException d)"
  then show "unshorten_url E k url = Inr (''Error: '' @ d)"
    by (simp add: unshorten_url_def try_block_def)
next
  show "unshorten_url E k url \<noteq> Inl (RequestException d')"
    by (auto simp add: unshorten_url_def split: sum.splits exn.splits)
next
  assume "requests_head E k url = Inl e \<and> (\<forall>d. e \<noteq> RequestException d)"
  then show "unshorten_url E k url = Inl e"
    by (cases e) (simp_all add: unshorten_url_def try_block_def)
next
  assume "requests_head E k url = Inr final_url \<and> urlparse_netloc E final_url = Inl e \<and>
    (\<forall>d. e \<noteq> RequestException d)"
  then show "unshorten_url E k url = Inl e"
    by (cases e) (simp_all add: unshorten_url_def try_block_def)
qed

theorem unshorten_url_request_exception_witness:
  "requests_head stub 0 ''http://badhost.invalid'' =
     Inl (RequestException ''Name or service not known'') \<and>
   unshorten_url stub 0 ''http://badhost.invalid'' = Inr ''Error: Name or service not known'' \<and>
   requests_head leaking 0 ''http://example.com'' = Inl (OtherException ''ValueError'') \<and>
   unshorten_url leaking 0 ''http://example.com'' = Inl (OtherException ''ValueError'') \<and>
   requests_head unparsable 0 ''http://example.com'' = Inr ''http://example.com'' \<and>
   urlparse_netloc unparsable ''http://example.com'' = Inl (OtherException ''ValueError'') \<and>
   unshorten_url unparsable 0 ''http://example.com'' = Inl (OtherException ''ValueError'')"
proof -
  have h1: "requests_head stub 0 ''http://badhost.invalid'' =
     Inl (RequestException ''Name or service not known'')"
    by (simp add: stub_def stub_head_def)
  have h2: "requests_head leaking 0 ''http://example.com'' = Inl (OtherException ''ValueError'')"
    by (simp add: leaking_def leaking_head_def)
  have h3: "requests_head unparsable 0 ''http://example.com'' = Inr ''http://example.com''"
    by (simp add: unparsable_def stub_head_def)
  have p3: "urlparse_netloc unparsable ''http://example.com'' = Inl (OtherException ''ValueError'')"
    by (simp add: unparsable_def failing_netloc_def)
  have other: "\<forall>d. OtherException ''ValueError'' \<noteq> RequestException d" by simp
  from unshorten_url_request_exception
    [where E = stub and k = 0 and url = "''http://badhost.invalid''"
       and d = "''Name or service not known''"] h1
  have r1: "unshorten_url stub 0 ''http://badhost.invalid'' =
      Inr ''Error: Name or service not known''"
    by simp
  from unshorten_url_request_exception
    [where E = leaking and k = 0 and url = "''http://example.com''"
       and e = "OtherException ''ValueError''"] h2 other
  have r2: "unshorten_url leaking 0 ''http://example.com'' = Inl (OtherException ''ValueError'')"
    by blast
  from unshorten_url_request_exception
    [where E = unparsable and k = 0 and url = "''http://example.com''"
       and final_url = "''http://example.com''" and e = "OtherException ''ValueError''"]
    h3 p3 other
  have r3: "unshorten_url unparsable 0 ''http://example.com'' = Inl (OtherException ''ValueError'')"
    by blast
  from h1 h2 h3 p3 r1 r2 r3 show ?thesis by blast
qed

text \<open>
  C5. For every input with a header row, the first row that \<^verbatim>\<open>process_csv\<close> writes is
  the input header followed by \<^verbatim>\<open>Unshortened URL\<close>, whatever the header holds and
  however the run ends; when a document is returned, that is its first row.
\<close>

theorem process_csv_header:
  "hd (written (snd (run_csv E column_index (header # rows)))) = header @ [''Unshortened URL''] \<and>
   (process_csv E column_index (header # rows) = Inr out \<longrightarrow>
      out \<noteq> [] \<and> hd out = header @ [''Unshortened URL''])"
proof -
  obtain r s where run: "run_csv E column_index (header # rows) = (r, s)"
    by (cases "run_csv E column_index (header # rows)")
  from run_csv_header [OF run] run show ?thesis
    by (auto simp add: process_csv_def split: option.splits)
qed

theorem process_csv_header_witness:
  "process_csv stub 1 ([''name'', ''url''] # tl sample_doc) = Inr sample_out \<and>
   hd sample_out = [''name'', ''url''] @ [''Unshortened URL'']"
proof -
  have "process_csv stub 1 ([''name'', ''url''] # tl sample_doc) = Inr sample_out"
    using sample_process by (simp add: sample_doc_def)
  with process_csv_header [of stub 1 "[''name'', ''url'']" "tl sample_doc" sample_out]
  show ?thesis by blast
qed



text \<open>
  C7. When the request succeeds and the network location of the final URL is none of
  the six listed hosts, \<^verbatim>\<open>unshorten_url\<close> returns exactly the final URL.
\<close>

theorem unshorten_url_resolved:
  assumes "requests_head E k url = Inr final_url"
    and "urlparse_netloc E final_url = Inr netloc"
    and "netloc \<notin> {''bit.ly'', ''tinyurl.com'', ''goo.gl'', ''t.co'', ''shorturl.at'', ''lnkd.in''}"
  shows "unshorten_url E k url = Inr final_url"
  using assms by (auto simp add: unshorten_url_response shortener_domains_def)

theorem unshorten_url_resolved_witness:
  "requests_head stub 0 ''http://bit.ly/abc'' = Inr ''https://example.com/final'' \<and>
   urlparse_netloc stub ''https://example.com/final'' = Inr ''example.com'' \<and>
   ''example.com'' \<notin> {''bit.ly'', ''tinyurl.com'', ''goo.gl'', ''t.co'', ''shorturl.at'', ''lnkd.in''} \<and>
   unshorten_url stub 0 ''http://bit.ly/abc'' = Inr ''https://example.com/final''"
proof -
  have h: "requests_head stub 0 ''http://bit.ly/abc'' = Inr ''https://example.com/final''"
    by (simp add: stub_def stub_head_def)
  have p: "urlparse_netloc stub ''https://example.com/final'' = Inr ''example.com''"
    by (simp add: stub_def stub_netloc_def)
  have m: "''example.com'' \<notin> {''bit.ly'', ''tinyurl.com'', ''goo.gl'', ''t.co'', ''shorturl.at'', ''lnkd.in''}"
    by simp
  from unshorten_url_resolved [OF h p m] h p m show ?thesis by simp
qed



text \<open>
  C9. On empty input (no header row) \<^verbatim>\<open>process_csv\<close> returns no document: the
  \<^verbatim>\<open>StopIteration\<close> of \<^verbatim>\<open>next(reader)\<close> reaches the caller, and nothing has been
  written, requested or printed by then.
\<close>

theorem process_csv_empty_input:
  "process_csv E column_index [] = Inl StopIteration \<and>
   run_csv E column_index [] = (Some StopIteration, initial) \<and>
   written initial = [] \<and> requested initial = [] \<and> printed initial = []"
  by (simp add: process_csv_def run_csv_def initial_def)

text \<open>
  C10. The test is equality of strings on the whole network location: after a
  successful request, every network location other than the six listed strings gives
  the final URL back. In particular a \<^verbatim>\<open>www.\<close> prefix or a port added to a listed host,
  and a listed host in other letter case, are not matched.
\<close>

theorem unshorten_url_exact_netloc:
  assumes "requests_head E k url = Inr final_url"
    and "urlparse_netloc E final_url = Inr netloc"
  shows "(netloc \<notin> {''bit.ly'', ''tinyurl.com'', ''goo.gl'', ''t.co'', ''shorturl.at'', ''lnkd.in''} \<longrightarrow>
            unshorten_url E k url = Inr final_url) \<and>
         (d \<in> {''bit.ly'', ''tinyurl.com'', ''goo.gl'', ''t.co'', ''shorturl.at'', ''lnkd.in''} \<and>
          (netloc = ''www.'' @ d \<or> netloc = d @ '':'' @ port) \<longrightarrow>
            unshorten_url E k url = Inr final_url) \<and>
         (netloc \<in> {''BIT.LY'', ''TINYURL.COM'', ''GOO.GL'', ''T.CO'', ''SHORTURL.AT'', ''LNKD.IN'',
                     ''Bit.ly'', ''TinyURL.com''} \<longrightarrow>
            unshorten_url E k url = Inr final_url)"
proof (intro conjI impI)
  assume "netloc \<notin> {''bit.ly'', ''tinyurl.com'', ''goo.gl'', ''t.co'', ''shorturl.at'', ''lnkd.in''}"
  with assms show "unshorten_url E k url = Inr final_url"
    by (simp add: unshorten_url_response shortener_domains_def)
next
  assume a: "d \<in> {''bit.ly'', ''tinyurl.com'', ''goo.gl'', ''t.co'', ''shorturl.at'', ''lnkd.in''} \<and>
          (netloc = ''www.'' @ d \<or> netloc = d @ '':'' @ port)"
  then have "d \<in> set shortener_domains" by (simp add: shortener_domains_def)
  from www_not_listed [OF this] port_not_listed [OF this, of port] a
  have "netloc \<notin> set shortener_domains" by auto
  with assms show "unshorten_url E k url = Inr final_url"
    by (simp add: unshorten_url_response)
next
  assume "netloc \<in> {''BIT.LY'', ''TINYURL.COM'', ''GOO.GL'', ''T.CO'', ''SHORTURL.AT'', ''LNKD.IN'',
                     ''Bit.ly'', ''TinyURL.com''}"
  then have "netloc \<notin> set shortener_domains" by (auto simp add: shortener_domains_def)
  with assms show "unshorten_url E k url = Inr final_url"
    by (simp add: unshorten_url_response)
qed

theorem unshorten_url_exact_netloc_witness:
  "requests_head stub 0 ''https://www.bit.ly/loop'' = Inr ''https://www.bit.ly/loop'' \<and>
   urlparse_netloc stub ''https://www.bit.ly/loop'' = Inr ''www.bit.ly'' \<and>
   unshorten_url stub 0 ''https://www.bit.ly/loop'' = Inr ''https://www.bit.ly/loop'' \<and>
   requests_head stub 1 ''https://bit.ly:80/loop'' = Inr ''https://bit.ly:80/loop'' \<and>
   urlparse_netloc stub ''https://bit.ly:80/loop'' = Inr ''bit.ly:80'' \<and>
   unshorten_url stub 1 ''https://bit.ly:80/loop'' = Inr ''https://bit.ly:80/loop'' \<and>
   requests_head stub 2 ''https://BIT.LY/loop'' = Inr ''https://BIT.LY/loop'' \<and>
   urlparse_netloc stub ''https://BIT.LY/loop'' = Inr ''BIT.LY'' \<and>
   unshorten_url stub 2 ''https://BIT.LY/loop'' = Inr ''https://BIT.LY/loop''"
proof -
  have h1: "requests_head stub 0 ''https://www.bit.ly/loop'' = Inr ''https://www.bit.ly/loop''"
    and h2: "requests_head stub 1 ''https://bit.ly:80/loop'' = Inr ''https://bit.ly:80/loop''"
    and h3: "requests_head stub 2 ''https://BIT.LY/loop'' = Inr ''https://BIT.LY/loop''"
    by (simp_all add: stub_def stub_head_def)
  have p1: "urlparse_netloc stub ''https://www.bit.ly/loop'' = Inr ''www.bit.ly''"
    and p2: "urlparse_netloc stub ''https://bit.ly:80/loop'' = Inr ''bit.ly:80''"
    and p3: "urlparse_netloc stub ''https://BIT.LY/loop'' = Inr ''BIT.LY''"
    by (simp_all add: stub_def stub_netloc_def)
  from unshorten_url_exact_netloc [OF h1 p1, where d = "''bit.ly''"]
  have r1: "unshorten_url stub 0 ''https://www.bit.ly/loop'' = Inr ''https://www.bit.ly/loop''"
    by simp
  from unshorten_url_exact_netloc [OF h2 p2, where d = "''bit.ly''" and port = "''80''"]
  have r2: "unshorten_url stub 1 ''https://bit.ly:80/loop'' = Inr ''https://bit.ly:80/loop''"
    by simp
  from unshorten_url_exact_netloc [OF h3 p3]
  have r3: "unshorten_url stub 2 ''https://BIT.LY/loop'' = Inr ''https://BIT.LY/loop''"
    by simp
  from h1 h2 h3 p1 p2 p3 r1 r2 r3 show ?thesis by blast
qed

end
